theory Spec2Isabelle
  imports Complex_Main "HOL-Library.Sublist" "HOL-Library.Char_ord" "HOL-Library.List_Lexorder"
    "HOL-Library.Multiset"
begin

section \<open>DevHub Dashboard: the query pipeline of \<open>src/js/app.js\<close>\<close>

text \<open>
  The embedding follows \<open>src/js/app.js\<close>: class \<open>Project\<close> and class
  \<open>DashboardManager\<close>. The older \<open>src/unnamed/part_000\<close> has the same
  \<open>Project\<close> class and the same \<open>filterProjects\<close>, and no search, sort or paging.

  A JavaScript string is modelled as a \<^typ>\<open>string\<close>: the bytes of its UTF-8 form,
  for well-formed Unicode text. Strict equality and \<open>includes\<close> are the same on the bytes
  as on the text. A number that holds an integer is an \<^typ>\<open>int\<close>; \<open>NaN\<close> and
  \<open>undefined\<close> are explicit values.
\<close>

subsection \<open>JavaScript built-ins used by the code\<close>

text \<open>\<open>hay.includes(needle)\<close>: the needle occurs in \<open>hay\<close> at some position.\<close>

fun String_includes :: "string \<Rightarrow> string \<Rightarrow> bool" where
  "String_includes [] needle = (needle = [])"
| "String_includes (c # cs) needle = (prefix needle (c # cs) \<or> String_includes cs needle)"

text \<open>
  A number as the code sees it where \<open>NaN\<close> can occur: the result of \<open>parseInt\<close>,
  of a \<open>Date\<close> subtraction, of a comparator.
\<close>

datatype jsnum = NaN | Num int

text \<open>\<open>x >= y\<close> on the numbers of two dates: false as soon as one is \<open>NaN\<close>.\<close>

definition js_ge :: "int option \<Rightarrow> int option \<Rightarrow> bool" where
  "js_ge x y = (case (x, y) of (Some a, Some b) \<Rightarrow> b \<le> a | _ \<Rightarrow> False)"

text \<open>
  \<open>Array.prototype.slice(start, end)\<close>: a negative index counts from the end, both are
  clamped to the array, and an empty range gives the empty array.
\<close>

definition js_slice :: "'a list \<Rightarrow> int \<Rightarrow> int \<Rightarrow> 'a list" where
  "js_slice xs start fin =
     (let len = int (length xs);
          k = (if start < 0 then max (len + start) 0 else min start len);
          final = (if fin < 0 then max (len + fin) 0 else min fin len)
      in take (nat (final - k)) (drop (nat k) xs))"

text \<open>
  \<open>Array.prototype.sort(comparefn)\<close>. The comparator's result \<open>v\<close> goes through
  \<open>ToNumber\<close>, and \<open>NaN\<close> (so also \<open>undefined\<close>) counts as \<open>+0\<close>. The sort is
  stable (ECMAScript 2019), so for a consistent comparator the result is the one stable
  sorted arrangement, which this insertion sort computes: an element goes in front of the
  first later element it does not compare greater than. For a comparator that is not
  consistent on the array the standard leaves the order to the implementation, and
  this function then is not the order of any one engine; nothing below rests on it
  there.
\<close>

definition SortCompare :: "('a \<Rightarrow> 'a \<Rightarrow> jsnum) \<Rightarrow> 'a \<Rightarrow> 'a \<Rightarrow> int" where
  "SortCompare comparefn x y = (case comparefn x y of NaN \<Rightarrow> 0 | Num v \<Rightarrow> v)"

fun sort_insert :: "('a \<Rightarrow> 'a \<Rightarrow> jsnum) \<Rightarrow> 'a \<Rightarrow> 'a list \<Rightarrow> 'a list" where
  "sort_insert comparefn x [] = [x]"
| "sort_insert comparefn x (y # ys) =
     (if SortCompare comparefn x y \<le> 0 then x # y # ys
      else y # sort_insert comparefn x ys)"

definition Array_sort :: "('a \<Rightarrow> 'a \<Rightarrow> jsnum) \<Rightarrow> 'a list \<Rightarrow> 'a list" where
  "Array_sort comparefn xs = foldr (sort_insert comparefn) xs []"

text \<open>
  Reading a property of an object literal, \<open>obj[key]\<close>: the literal's own properties
  first, then the properties every object literal inherits from \<open>Object.prototype\<close>,
  then \<open>undefined\<close>.
\<close>

datatype jsval = Undefined | Str string | ObjectPrototypeMember string

definition Object_prototype_keys :: "string list" where
  "Object_prototype_keys =
     [''constructor'', ''hasOwnProperty'', ''isPrototypeOf'', ''propertyIsEnumerable'',
      ''toLocaleString'', ''toString'', ''valueOf'', ''__proto__'',
      ''__defineGetter__'', ''__defineSetter__'', ''__lookupGetter__'', ''__lookupSetter__'']"

definition object_get :: "(string \<times> string) list \<Rightarrow> string \<Rightarrow> jsval" where
  "object_get own key =
     (case map_of own key of
        Some v \<Rightarrow> Str v
      | None \<Rightarrow> if key \<in> set Object_prototype_keys then ObjectPrototypeMember key
                else Undefined)"

text \<open>
  The integers a number holds exactly and a template literal prints digit by digit: the
  model follows the code on these, and says so where a number leaves them.
\<close>

definition MAX_SAFE_INTEGER :: int where
  "MAX_SAFE_INTEGER = 2 ^ 53 - 1"

text \<open>
  \<open>parseInt(text)\<close> with no radix. White space and line terminators in front are
  skipped: U+0009 to U+000D, U+0020, U+00A0, U+1680, U+2000 to U+200A, U+2028, U+2029,
  U+202F, U+205F, U+3000 and U+FEFF, here in UTF-8. Then comes an optional sign, then
  \<open>0x\<close>/\<open>0X\<close> selects base 16; the longest run of digits is read, and no digit at all
  gives \<open>NaN\<close>. The result is \<open>None\<close> when the digits are worth more than
  \<open>MAX_SAFE_INTEGER\<close>: the code then has the value rounded to a double, which the
  model does not compute.
\<close>

definition WhiteSpace :: "string list" where
  "WhiteSpace =
     [[CHR 0x09], [CHR 0x0A], [CHR 0x0B], [CHR 0x0C], [CHR 0x0D], [CHR 0x20],
      [CHR 0xC2, CHR 0xA0], [CHR 0xE1, CHR 0x9A, CHR 0x80],
      [CHR 0xE2, CHR 0x80, CHR 0x80], [CHR 0xE2, CHR 0x80, CHR 0x81],
      [CHR 0xE2, CHR 0x80, CHR 0x82], [CHR 0xE2, CHR 0x80, CHR 0x83],
      [CHR 0xE2, CHR 0x80, CHR 0x84], [CHR 0xE2, CHR 0x80, CHR 0x85],
      [CHR 0xE2, CHR 0x80, CHR 0x86], [CHR 0xE2, CHR 0x80, CHR 0x87],
      [CHR 0xE2, CHR 0x80, CHR 0x88], [CHR 0xE2, CHR 0x80, CHR 0x89],
      [CHR 0xE2, CHR 0x80, CHR 0x8A], [CHR 0xE2, CHR 0x80, CHR 0xA8],
      [CHR 0xE2, CHR 0x80, CHR 0xA9], [CHR 0xE2, CHR 0x80, CHR 0xAF],
      [CHR 0xE2, CHR 0x81, CHR 0x9F], [CHR 0xE3, CHR 0x80, CHR 0x80],
      [CHR 0xEF, CHR 0xBB, CHR 0xBF]]"

function StripLeadingWhiteSpace :: "string \<Rightarrow> string" where
  "StripLeadingWhiteSpace s =
     (case find (\<lambda>w. prefix w s) WhiteSpace of
        None \<Rightarrow> s
      | Some w \<Rightarrow> StripLeadingWhiteSpace (drop (length w) s))"
  by pat_completeness auto

termination
proof (relation "measure length")
  show "wf (measure length)"
    by simp
next
  fix s w
  assume "find (\<lambda>w. prefix w s) WhiteSpace = Some w"
  then have "w \<in> set WhiteSpace" and pre: "prefix w s"
    by (auto simp: find_Some_iff)
  then have "w \<noteq> []"
    by (auto simp: WhiteSpace_def)
  with pre have "s \<noteq> []"
    by auto
  with \<open>w \<noteq> []\<close> show "(drop (length w) s, s) \<in> measure length"
    by simp
qed

declare StripLeadingWhiteSpace.simps [simp del]

definition digit_value :: "char \<Rightarrow> nat option" where
  "digit_value c =
     (if CHR ''0'' \<le> c \<and> c \<le> CHR ''9'' then Some (of_char c - 48)
      else if CHR ''a'' \<le> c \<and> c \<le> CHR ''f'' then Some (of_char c - 87)
      else if CHR ''A'' \<le> c \<and> c \<le> CHR ''F'' then Some (of_char c - 55)
      else None)"

definition is_digit :: "nat \<Rightarrow> char \<Rightarrow> bool" where
  "is_digit radix c = (case digit_value c of None \<Rightarrow> False | Some d \<Rightarrow> d < radix)"

definition digits_value :: "nat \<Rightarrow> string \<Rightarrow> nat" where
  "digits_value radix ds = foldl (\<lambda>acc c. acc * radix + the (digit_value c)) 0 ds"

definition parseInt :: "string \<Rightarrow> jsnum option" where
  "parseInt text =
     (let s = StripLeadingWhiteSpace text;
          neg = (s \<noteq> [] \<and> hd s = CHR ''-'');
          s1 = (if s \<noteq> [] \<and> (hd s = CHR ''-'' \<or> hd s = CHR ''+'') then tl s else s);
          hex = (prefix ''0x'' s1 \<or> prefix ''0X'' s1);
          radix = (if hex then 16 else 10);
          s2 = (if hex then drop 2 s1 else s1);
          ds = takeWhile (is_digit radix) s2;
          mathInt = int (digits_value radix ds)
      in if ds = [] then Some NaN
         else if mathInt \<le> MAX_SAFE_INTEGER
              then Some (Num ((if neg then - 1 else 1) * mathInt))
              else None)"

text \<open>
  An integer as a template literal \<open>${n}\<close> prints it: all its digits, which is what the
  code prints for a number that holds an integer below \<open>10^21\<close> in size.
\<close>

fun digits_of :: "nat \<Rightarrow> string" where
  "digits_of n =
     (if n < 10 then [char_of (48 + n)]
      else digits_of (n div 10) @ [char_of (48 + n mod 10)])"

declare digits_of.simps [simp del]

definition string_of_int :: "int \<Rightarrow> string" where
  "string_of_int i = (if i < 0 then CHR ''-'' # digits_of (nat (- i)) else digits_of (nat i))"

text \<open>
  What the host computes from tables of its own: \<open>String.prototype.toLowerCase\<close> (the
  case mappings of the Unicode Character Database, with its special casing),
  \<open>String.prototype.localeCompare\<close> (an ordering that depends on the locale) and the
  time value, in milliseconds, that \<open>new Date(text)\<close> reads from a text (\<open>None\<close> for
  an invalid date, whose number is \<open>NaN\<close>). They are parameters of the model.
\<close>

record host =
  toLowerCase :: "string \<Rightarrow> string"
  localeCompare :: "string \<Rightarrow> string \<Rightarrow> int"
  Date_value :: "string \<Rightarrow> int option"

text \<open>
  On ASCII text \<open>toLowerCase\<close> sends \<open>A\<close>..\<open>Z\<close> to \<open>a\<close>..\<open>z\<close> and leaves every
  other character as it is.
\<close>

definition lower_char :: "char \<Rightarrow> char" where
  "lower_char c =
     (if CHR ''A'' \<le> c \<and> c \<le> CHR ''Z'' then char_of (of_char c + (32::nat)) else c)"

definition ascii_lower :: "string \<Rightarrow> string" where
  "ascii_lower s = map lower_char s"

subsection \<open>class Project\<close>

text \<open>
  A \<open>Project\<close> object is never assigned to after its constructor, so it is modelled by
  value. Field \<open>id\<close> is named \<open>project_id\<close> here.
\<close>

record Project =
  project_id :: int
  nombre :: string
  estado :: string
  fechaActualizacion :: string
  tecnologias :: "string list"
  descripcion :: string

definition statusClasses :: "(string \<times> string) list" where
  "statusClasses =
     [(''en-progreso'', ''status-progress''),
      (''completados'', ''status-completed''),
      (''pausados'', ''status-paused'')]"

definition getStatusClass :: "Project \<Rightarrow> jsval" where
  "getStatusClass p = object_get statusClasses (estado p)"

definition statusTexts :: "(string \<times> string) list" where
  "statusTexts =
     [(''en-progreso'', ''En Progreso''),
      (''completados'', ''Completado''),
      (''pausados'', ''Pausado'')]"

definition getStatusText :: "Project \<Rightarrow> jsval" where
  "getStatusText p = object_get statusTexts (estado p)"

subsection \<open>class DashboardManager, with the page and the store it works on\<close>

text \<open>
  Arrays are objects: \<open>filterProjects\<close> may hand back \<open>this.projects\<close> itself, and
  \<open>sort\<close> reorders the array it is called on. So arrays live in a heap, a reference is
  an index into it, and a new array is appended. The state holds the manager's fields,
  \<open>localStorage\<close>, and the parts of the document the code reads and writes: the values
  of \<open>#searchInput\<close> and \<open>#sortSelect\<close>, the filter buttons (their \<open>data-filter\<close>
  and whether they carry class \<open>active\<close>), the records whose cards are in
  \<open>#projectsGrid\<close> (the markup of a card is not modelled), and the buttons in
  \<open>#pagination\<close>. \<open>currentPage\<close> starts at 1 and stays an integer a number holds
  exactly: a click that would take it beyond has no result in the model.
\<close>

record button =
  disabled :: bool
  active :: bool
  data_page :: string
  caption :: string

record state =
  heap :: "Project list list"
  projects :: nat
  currentFilter :: string
  currentPage :: int
  localStorage :: "string \<rightharpoonup> string"
  searchInput :: string
  sortSelect :: string
  filterButtons :: "(string \<times> bool) list"
  projectsGrid :: "Project list"
  pagination :: "button list"

text \<open>\<open>this.projectsPerPage = 10\<close> is set in the constructor and never assigned again.\<close>

definition projectsPerPage :: int where
  "projectsPerPage = 10"

definition new_array :: "Project list \<Rightarrow> state \<Rightarrow> nat \<times> state" where
  "new_array xs s = (length (heap s), s\<lparr>heap := heap s @ [xs]\<rparr>)"

definition filterProjects :: "state \<Rightarrow> nat \<times> state" where
  "filterProjects s =
     (if currentFilter s = ''todos'' then (projects s, s)
      else new_array (filter (\<lambda>project. estado project = currentFilter s)
                        (heap s ! projects s)) s)"

definition searchProjects :: "host \<Rightarrow> nat \<Rightarrow> state \<Rightarrow> nat \<times> state" where
  "searchProjects H projs s =
     (let searchText = toLowerCase H (searchInput s)
      in new_array (filter (\<lambda>project. String_includes (toLowerCase H (nombre project)) searchText)
                      (heap s ! projs)) s)"

definition date_minus :: "int option \<Rightarrow> int option \<Rightarrow> jsnum" where
  "date_minus x y = (case (x, y) of (Some tx, Some ty) \<Rightarrow> Num (tx - ty) | _ \<Rightarrow> NaN)"

definition compareProjects :: "host \<Rightarrow> string \<Rightarrow> Project \<Rightarrow> Project \<Rightarrow> jsnum" where
  "compareProjects H key a b =
     (if key = ''fechaActualizacion'' then
        date_minus (Date_value H (fechaActualizacion b)) (Date_value H (fechaActualizacion a))
      else if key = ''nombre'' then Num (localeCompare H (nombre a) (nombre b))
      else if key = ''estado'' then Num (localeCompare H (estado a) (estado b))
      else NaN)"

definition sortProjects :: "host \<Rightarrow> nat \<Rightarrow> state \<Rightarrow> nat \<times> state" where
  "sortProjects H projs s =
     (projs, s\<lparr>heap := (heap s)[projs :=
                 Array_sort (compareProjects H (sortSelect s)) (heap s ! projs)]\<rparr>)"

definition paginateProjects :: "nat \<Rightarrow> state \<Rightarrow> nat \<times> state" where
  "paginateProjects projs s =
     (let startIndex = (currentPage s - 1) * projectsPerPage;
          endIndex = startIndex + projectsPerPage
      in new_array (js_slice (heap s ! projs) startIndex endIndex) s)"

definition totalPages :: "int \<Rightarrow> int" where
  "totalPages totalProjects = \<lceil>real_of_int totalProjects / real_of_int projectsPerPage\<rceil>"

definition setupPagination :: "int \<Rightarrow> state \<Rightarrow> state" where
  "setupPagination totalProjects s =
     s\<lparr>pagination :=
         [\<lparr>disabled = (currentPage s = 1), active = False,
           data_page = string_of_int (currentPage s - 1), caption = ''Anterior''\<rparr>]
         @ map (\<lambda>i. \<lparr>disabled = False, active = (currentPage s = int i + 1),
                     data_page = string_of_int (int i + 1),
                     caption = string_of_int (int i + 1)\<rparr>)
             [0 ..< nat (totalPages totalProjects)]
         @ [\<lparr>disabled = (currentPage s = totalPages totalProjects), active = False,
             data_page = string_of_int (currentPage s + 1), caption = ''Siguiente''\<rparr>]\<rparr>"

definition loadProjects :: "host \<Rightarrow> state \<Rightarrow> state" where
  "loadProjects H s =
     (let (filteredProjects, s1) = filterProjects s;
          (searchedProjects, s2) = searchProjects H filteredProjects s1;
          (sortedProjects, s3) = sortProjects H searchedProjects s2;
          (paginatedProjects, s4) = paginateProjects sortedProjects s3;
          s5 = s4\<lparr>projectsGrid := heap s4 ! paginatedProjects\<rparr>
      in setupPagination (int (length (heap s5 ! sortedProjects))) s5)"

definition setActiveFilter :: "state \<Rightarrow> state" where
  "setActiveFilter s =
     s\<lparr>filterButtons := map (\<lambda>(f, a). (f, f = currentFilter s)) (filterButtons s)\<rparr>"

definition handleFilterChange :: "host \<Rightarrow> string \<Rightarrow> state \<Rightarrow> state" where
  "handleFilterChange H flt s =
     (let s1 = s\<lparr>currentFilter := flt\<rparr>;
          s2 = s1\<lparr>localStorage := (localStorage s1)(''currentFilter'' \<mapsto> flt)\<rparr>;
          s3 = setActiveFilter s2;
          s4 = s3\<lparr>currentPage := 1\<rparr>
      in loadProjects H s4)"

text \<open>
  The listeners of \<open>setupEventListeners\<close>. The search text and the sort key are not
  fields of the manager: they are the values of the two inputs, which the browser has
  already changed when the listener runs.
\<close>

definition searchInput_input :: "host \<Rightarrow> string \<Rightarrow> state \<Rightarrow> state" where
  "searchInput_input H text s = loadProjects H (s\<lparr>searchInput := text\<rparr>)"

definition sortSelect_change :: "host \<Rightarrow> string \<Rightarrow> state \<Rightarrow> state" where
  "sortSelect_change H key s = loadProjects H (s\<lparr>sortSelect := key\<rparr>)"

text \<open>
  The click listener of a button in \<open>#pagination\<close>; \<open>page\<close> is the button's
  \<open>dataset.page\<close>. The result is \<open>None\<close> where the page number leaves the integers
  the model follows. A disabled button gets no click.
\<close>

definition pagination_click :: "host \<Rightarrow> string \<Rightarrow> state \<Rightarrow> state option" where
  "pagination_click H page s =
     (case parseInt page of
        None \<Rightarrow> None
      | Some NaN \<Rightarrow> Some s
      | Some (Num n) \<Rightarrow> Some (loadProjects H (s\<lparr>currentPage := n\<rparr>)))"

definition click :: "host \<Rightarrow> button \<Rightarrow> state \<Rightarrow> state option" where
  "click H b s = (if disabled b then Some s else pagination_click H (data_page b) s)"

text \<open>
  The constructor and \<open>init\<close>. \<open>response\<close> is what \<open>fetch('projects.json')\<close> and
  \<open>response.json()\<close> give, \<open>None\<close> when either throws; the starting values of the two
  inputs and the filter buttons come from the page.
\<close>

definition DashboardManager_new ::
  "(string \<rightharpoonup> string) \<Rightarrow> string \<Rightarrow> string \<Rightarrow> string list \<Rightarrow> state" where
  "DashboardManager_new store search key filters =
     \<lparr>heap = [[]], projects = 0,
      currentFilter = (case store ''currentFilter'' of
                         None \<Rightarrow> ''todos''
                       | Some v \<Rightarrow> if v = [] then ''todos'' else v),
      currentPage = 1, localStorage = store, searchInput = search, sortSelect = key,
      filterButtons = map (\<lambda>f. (f, False)) filters, projectsGrid = [], pagination = []\<rparr>"

definition loadProjectsData :: "Project list option \<Rightarrow> state \<Rightarrow> state" where
  "loadProjectsData response s =
     (case response of
        None \<Rightarrow> s
      | Some projectsData \<Rightarrow> (let (r, s1) = new_array projectsData s in s1\<lparr>projects := r\<rparr>))"

definition init :: "host \<Rightarrow> Project list option \<Rightarrow> state \<Rightarrow> state" where
  "init H response s = setActiveFilter (loadProjects H (loadProjectsData response s))"

text \<open>The sequence a recompute pages through: the array \<open>sortedProjects\<close> of \<open>loadProjects\<close>.\<close>

definition sortedProjects :: "host \<Rightarrow> state \<Rightarrow> Project list" where
  "sortedProjects H s =
     (let (filteredProjects, s1) = filterProjects s;
          (searchedProjects, s2) = searchProjects H filteredProjects s1;
          (sorted, s3) = sortProjects H searchedProjects s2
      in heap s3 ! sorted)"

subsection \<open>The specification's wording of the search\<close>

text \<open>
  The name contains the search text as a case-insensitive substring: some contiguous
  piece of the name is the search text, letter for letter, where a capital letter and
  its small letter count as the same. The letters are given by the two alphabets.
\<close>

definition upper_letters :: string where
  "upper_letters = ''ABCDEFGHIJKLMNOPQRSTUVWXYZ''"

definition lower_letters :: string where
  "lower_letters = ''abcdefghijklmnopqrstuvwxyz''"

definition same_letter :: "char \<Rightarrow> char \<Rightarrow> bool" where
  "same_letter c d =
     (c = d \<or> (c, d) \<in> set (zip upper_letters lower_letters)
            \<or> (d, c) \<in> set (zip upper_letters lower_letters))"

definition ci_substring :: "string \<Rightarrow> string \<Rightarrow> bool" where
  "ci_substring text name =
     (\<exists>piece \<in> set (sublists name). list_all2 same_letter piece text)"

subsection \<open>Sample pages\<close>

text \<open>
  Two Greek texts, in UTF-8: the word of the capital letters omicron, delta, omicron,
  sigma (U+039F U+0394 U+039F U+03A3) and the single capital sigma. \<open>toLowerCase\<close>
  gives the first the small letters with the final sigma at its end (U+03BF U+03B4
  U+03BF U+03C2), and the second the small sigma (U+03C3).
\<close>

definition capital_odos :: string where
  "capital_odos = [CHR 0xCE, CHR 0x9F, CHR 0xCE, CHR 0x94, CHR 0xCE, CHR 0x9F, CHR 0xCE, CHR 0xA3]"

definition small_odos :: string where
  "small_odos = [CHR 0xCE, CHR 0xBF, CHR 0xCE, CHR 0xB4, CHR 0xCE, CHR 0xBF, CHR 0xCF, CHR 0x82]"

definition capital_sigma :: string where
  "capital_sigma = [CHR 0xCE, CHR 0xA3]"

definition small_sigma :: string where
  "small_sigma = [CHR 0xCF, CHR 0x83]"

text \<open>
  A host for the examples: its \<open>toLowerCase\<close> gives what ECMAScript gives on the two
  Greek texts and on ASCII text (also with small accented letters in it), its
  \<open>localeCompare\<close> orders by bytes, and it knows the dates of the examples.
\<close>

definition sample_host :: host where
  "sample_host =
     \<lparr>toLowerCase = (\<lambda>s. case map_of [(capital_odos, small_odos),
                                         (capital_sigma, small_sigma)] s of
                              Some l \<Rightarrow> l
                            | None \<Rightarrow> ascii_lower s),
      localeCompare = (\<lambda>a b. if a = b then 0 else if a < b then - 1 else 1),
      Date_value = map_of [(''2025-02-20'', 1740009600000), (''2025-02-15'', 1739577600000),
                           (''2025-02-10'', 1739145600000)]\<rparr>"

text \<open>
  The three projects of the README; the name of the third has the small o with acute
  accent, U+00F3.
\<close>

definition gestion :: string where
  "gestion = ''App de Gesti'' @ [CHR 0xC3, CHR 0xB3] @ ''n''"

definition sample_projects :: "Project list" where
  "sample_projects =
     [\<lparr>project_id = 1, nombre = ''E-commerce Platform'', estado = ''en-progreso'',
       fechaActualizacion = ''2025-02-20'', tecnologias = [''React'', ''Node.js'', ''MongoDB''],
       descripcion = ''Plataforma de comercio''\<rparr>,
      \<lparr>project_id = 2, nombre = ''Blog Personal'', estado = ''completados'',
       fechaActualizacion = ''2025-02-15'', tecnologias = [''Vue.js'', ''Firebase''],
       descripcion = ''Blog personal''\<rparr>,
      \<lparr>project_id = 3, nombre = gestion, estado = ''pausados'',
       fechaActualizacion = ''2025-02-10'', tecnologias = [''Angular'', ''Express''],
       descripcion = ''Recursos empresariales''\<rparr>]"

definition sample_state :: state where
  "sample_state =
     \<lparr>heap = [sample_projects], projects = 0, currentFilter = ''todos'', currentPage = 1,
      localStorage = Map.empty, searchInput = [], sortSelect = ''nombre'',
      filterButtons = [(''todos'', True), (''en-progreso'', False),
                       (''completados'', False), (''pausados'', False)],
      projectsGrid = [], pagination = []\<rparr>"

text \<open>The same page after the text \<open>zzz\<close> has been typed into the search box.\<close>

definition no_match_state :: state where
  "no_match_state = searchInput_input sample_host ''zzz'' sample_state"

text \<open>The same page with twelve projects, so with two pages of results.\<close>

definition twelve_projects :: "Project list" where
  "twelve_projects =
     map (\<lambda>i. \<lparr>project_id = i, nombre = ''Project'', estado = ''en-progreso'',
                 fechaActualizacion = ''2025-02-20'', tecnologias = [], descripcion = []\<rparr>)
       [1 .. 12]"

definition twelve_state :: state where
  "twelve_state = sample_state\<lparr>heap := [twelve_projects]\<rparr>"

text \<open>
  Four projects out of order, two on each of two days, and the page sorted by
  \<open>fechaActualizacion\<close>.
\<close>

definition dated :: "int \<Rightarrow> string \<Rightarrow> Project" where
  "dated i day =
     \<lparr>project_id = i, nombre = ''Project'', estado = ''en-progreso'',
      fechaActualizacion = day, tecnologias = [], descripcion = []\<rparr>"

definition tied_projects :: "Project list" where
  "tied_projects =
     [dated 1 ''2025-02-10'', dated 2 ''2025-02-20'', dated 3 ''2025-02-10'',
      dated 4 ''2025-02-20'']"

definition tied_state :: state where
  "tied_state = sample_state\<lparr>heap := [tied_projects], sortSelect := ''fechaActualizacion''\<rparr>"

text \<open>Two projects, the second with a text that is no date.\<close>

definition undated_projects :: "Project list" where
  "undated_projects = [dated 1 ''2025-02-10'', dated 2 ''sin fecha'']"

definition undated_state :: state where
  "undated_state =
     sample_state\<lparr>heap := [undated_projects], sortSelect := ''fechaActualizacion''\<rparr>"

text \<open>One project with the Greek word as its name, and the capital sigma as search text.\<close>

definition greek_projects :: "Project list" where
  "greek_projects =
     [\<lparr>project_id = 1, nombre = capital_odos, estado = ''en-progreso'',
       fechaActualizacion = ''2025-02-20'', tecnologias = [], descripcion = []\<rparr>]"

definition greek_state :: state where
  "greek_state = sample_state\<lparr>heap := [greek_projects], searchInput := capital_sigma\<rparr>"

subsection \<open>Frame of a recompute\<close>

lemmas pipeline_defs =
  loadProjects_def filterProjects_def searchProjects_def sortProjects_def
  paginateProjects_def setupPagination_def new_array_def

lemma loadProjects_frame:
  "currentPage (loadProjects H s) = currentPage s"
  "currentFilter (loadProjects H s) = currentFilter s"
  "localStorage (loadProjects H s) = localStorage s"
  "searchInput (loadProjects H s) = searchInput s"
  "sortSelect (loadProjects H s) = sortSelect s"
  "projects (loadProjects H s) = projects s"
  "filterButtons (loadProjects H s) = filterButtons s"
  by (simp_all add: pipeline_defs Let_def split: prod.split)

lemma sortedProjects_eq:
  "sortedProjects H s =
     Array_sort (compareProjects H (sortSelect s))
       (filter (\<lambda>p. String_includes (toLowerCase H (nombre p)) (toLowerCase H (searchInput s)))
          (if currentFilter s = ''todos'' then heap s ! projects s
           else filter (\<lambda>p. estado p = currentFilter s) (heap s ! projects s)))"
  by (simp add: sortedProjects_def filterProjects_def searchProjects_def sortProjects_def
      new_array_def Let_def nth_append)

lemma projectsGrid_loadProjects:
  "projectsGrid (loadProjects H s) =
     js_slice (sortedProjects H s) ((currentPage s - 1) * projectsPerPage)
       ((currentPage s - 1) * projectsPerPage + projectsPerPage)"
  by (simp add: sortedProjects_def pipeline_defs Let_def nth_append split: prod.split)

lemma pagination_loadProjects:
  "pagination (loadProjects H s) =
     pagination (setupPagination (int (length (sortedProjects H s))) s)"
  by (simp add: sortedProjects_def pipeline_defs Let_def nth_append split: prod.split)

lemma heap_loadProjects:
  assumes "projects s < length (heap s)"
  shows "heap (loadProjects H s) ! projects s = heap s ! projects s"
  using assms
  by (simp add: pipeline_defs Let_def nth_append split: prod.split)

lemma filterProjects_result:
  "heap (snd (filterProjects s)) ! fst (filterProjects s) =
   (if currentFilter s = ''todos'' then heap s ! projects s
    else filter (\<lambda>p. estado p = currentFilter s) (heap s ! projects s))"
  by (simp add: filterProjects_def new_array_def)

lemma searchProjects_result:
  "heap (snd (searchProjects H r s)) ! fst (searchProjects H r s) =
   filter (\<lambda>p. String_includes (toLowerCase H (nombre p)) (toLowerCase H (searchInput s))) (heap s ! r)"
  by (simp add: searchProjects_def new_array_def Let_def)

subsection \<open>Search\<close>

lemma String_includes_sublist: "String_includes hay needle = sublist needle hay"
  by (induction hay) (simp_all add: sublist_Cons_right)

lemma sublist_map_iff:
  "sublist (map f t) (map f n) \<longleftrightarrow> (\<exists>piece. sublist piece n \<and> map f piece = map f t)"
proof
  assume "sublist (map f t) (map f n)"
  then obtain ps ss where "map f n = ps @ map f t @ ss" by (auto simp: sublist_def)
  then obtain a b c where "n = a @ b @ c" "map f b = map f t"
    by (metis map_eq_append_conv)
  then show "\<exists>piece. sublist piece n \<and> map f piece = map f t"
    by (auto simp: sublist_def)
next
  assume "\<exists>piece. sublist piece n \<and> map f piece = map f t"
  then obtain piece where p: "sublist piece n" "map f piece = map f t" by blast
  then obtain ps ss where "n = ps @ piece @ ss" by (auto simp: sublist_def)
  then have "map f n = map f ps @ map f t @ map f ss" using p by simp
  then show "sublist (map f t) (map f n)" unfolding sublist_def by blast
qed

text \<open>
  The ASCII case map sends two characters to the same one exactly when they are the
  same letter of the alphabets.
\<close>

lemma lower_char_table:
  "\<forall>c. map_of (zip upper_letters lower_letters) c =
       (if CHR ''A'' \<le> c \<and> c \<le> CHR ''Z'' then Some (lower_char c) else None)"
  by code_simp

lemma lower_char_other: "\<forall>c. \<not> (CHR ''A'' \<le> c \<and> c \<le> CHR ''Z'') \<longrightarrow> lower_char c = c"
  by code_simp

lemma lower_char_small:
  "\<forall>c. CHR ''A'' \<le> c \<and> c \<le> CHR ''Z'' \<longrightarrow>
       \<not> (CHR ''A'' \<le> lower_char c \<and> lower_char c \<le> CHR ''Z'') \<and>
       char_of (of_char (lower_char c) - (32::nat)) = c"
  by code_simp

lemma letter_pair:
  "(c, d) \<in> set (zip upper_letters lower_letters) \<longleftrightarrow>
     CHR ''A'' \<le> c \<and> c \<le> CHR ''Z'' \<and> d = lower_char c"
proof -
  have "distinct (map fst (zip upper_letters lower_letters))"
    by (simp add: upper_letters_def lower_letters_def)
  then have "(c, d) \<in> set (zip upper_letters lower_letters) \<longleftrightarrow>
      map_of (zip upper_letters lower_letters) c = Some d"
    by simp
  then show ?thesis
    using lower_char_table by auto
qed

lemma lower_char_same_letter: "lower_char c = lower_char d \<longleftrightarrow> same_letter c d"
proof -
  define up where "up = (\<lambda>x. CHR ''A'' \<le> x \<and> x \<le> CHR ''Z'')"
  have other: "lower_char x = x" if "\<not> up x" for x
    using that lower_char_other by (simp add: up_def)
  have small: "\<not> up (lower_char x)" and undo: "char_of (of_char (lower_char x) - (32::nat)) = x"
    if "up x" for x
    using that lower_char_small by (simp_all add: up_def)
  have same: "same_letter c d \<longleftrightarrow> c = d \<or> (up c \<and> d = lower_char c) \<or> (up d \<and> c = lower_char d)"
    by (simp add: same_letter_def letter_pair up_def)
  show ?thesis
  proof (cases "up c")
    case True
    note c = this
    show ?thesis
    proof (cases "up d")
      case True
      have "c = d" if "lower_char c = lower_char d"
        using undo [OF c] undo [OF True] that by metis
      moreover have "d \<noteq> lower_char c" "c \<noteq> lower_char d"
        using small [OF c] small [OF True] c True by auto
      ultimately show ?thesis
        unfolding same by auto
    next
      case False
      then show ?thesis
        unfolding same using c other [OF False] by auto
    qed
  next
    case False
    note c = this
    show ?thesis
    proof (cases "up d")
      case True
      then show ?thesis
        unfolding same using c other [OF c] by auto
    next
      case False
      then show ?thesis
        unfolding same using c other [OF c] other [OF False] by auto
    qed
  qed
qed

lemma ascii_lower_eq_iff: "ascii_lower a = ascii_lower b \<longleftrightarrow> list_all2 same_letter a b"
proof -
  have "ascii_lower a = ascii_lower b \<longleftrightarrow> list_all2 (=) (map lower_char a) (map lower_char b)"
    by (simp add: ascii_lower_def list.rel_eq)
  also have "\<dots> \<longleftrightarrow> list_all2 (\<lambda>c d. lower_char c = lower_char d) a b"
    by (simp add: list.rel_map)
  finally show ?thesis
    by (simp add: lower_char_same_letter)
qed

lemma includes_ci_substring:
  "String_includes (ascii_lower name) (ascii_lower text) = ci_substring text name"
proof -
  have "String_includes (ascii_lower name) (ascii_lower text) \<longleftrightarrow>
      (\<exists>piece. sublist piece name \<and> ascii_lower piece = ascii_lower text)"
    by (simp add: String_includes_sublist ascii_lower_def sublist_map_iff)
  then show ?thesis
    by (simp add: ci_substring_def ascii_lower_eq_iff Bex_def)
qed

text \<open>
  What the search does for every host, and what that is on texts whose lower case is
  the ASCII one, as it is for every ASCII text: the case-insensitive substring match.
\<close>

lemma searchProjects_same_lower:
  assumes "toLowerCase H a = toLowerCase H b"
  shows "heap (snd (searchProjects H r (s\<lparr>searchInput := a\<rparr>))) !
           fst (searchProjects H r (s\<lparr>searchInput := a\<rparr>)) =
         heap (snd (searchProjects H r (s\<lparr>searchInput := b\<rparr>))) !
           fst (searchProjects H r (s\<lparr>searchInput := b\<rparr>))"
  using assms by (simp add: searchProjects_result)

lemma searchProjects_empty_text:
  assumes "toLowerCase H [] = []" and "searchInput s = []"
  shows "heap (snd (searchProjects H r s)) ! fst (searchProjects H r s) = heap s ! r"
  using assms by (simp add: searchProjects_result String_includes_sublist)

lemma searchProjects_ascii:
  assumes "toLowerCase H (searchInput s) = ascii_lower (searchInput s)"
    and "\<forall>p \<in> set (heap s ! r). toLowerCase H (nombre p) = ascii_lower (nombre p)"
  shows "heap (snd (searchProjects H r s)) ! fst (searchProjects H r s) =
         filter (\<lambda>p. ci_substring (searchInput s) (nombre p)) (heap s ! r)"
proof -
  have "filter (\<lambda>p. String_includes (toLowerCase H (nombre p)) (toLowerCase H (searchInput s)))
          (heap s ! r) =
        filter (\<lambda>p. ci_substring (searchInput s) (nombre p)) (heap s ! r)"
    using assms by (intro filter_cong) (simp_all add: includes_ci_substring)
  then show ?thesis
    by (simp add: searchProjects_result)
qed

subsection \<open>Sorting\<close>

lemma Array_sort_Cons: "Array_sort c (x # xs) = sort_insert c x (Array_sort c xs)"
  by (simp add: Array_sort_def)

lemma Array_sort_Nil: "Array_sort c [] = []"
  by (simp add: Array_sort_def)

lemma mset_sort_insert: "mset (sort_insert c x ys) = add_mset x (mset ys)"
  by (induction ys) simp_all

lemma mset_Array_sort: "mset (Array_sort c xs) = mset xs"
  by (induction xs) (simp_all add: Array_sort_Nil Array_sort_Cons mset_sort_insert)

lemma set_Array_sort: "set (Array_sort c xs) = set xs"
  by (metis mset_Array_sort set_mset_mset)

lemma length_Array_sort: "length (Array_sort c xs) = length xs"
  by (metis mset_Array_sort size_mset)

lemma sort_insert_sorted:
  assumes "\<forall>y \<in> set ys. (SortCompare c x y \<le> 0) = (k y \<le> k x)"
    and "sorted_wrt (\<lambda>a b. k b \<le> k a) ys"
  shows "sorted_wrt (\<lambda>a b. (k b :: int) \<le> k a) (sort_insert c x ys)"
  using assms
proof (induction ys)
  case Nil
  then show ?case by simp
next
  case (Cons y ys)
  have "set (sort_insert c x ys) = insert x (set ys)"
    by (metis mset_sort_insert set_mset_mset set_mset_add_mset_insert)
  with Cons show ?case by (auto simp: Ball_def)
qed

lemma sort_insert_filter:
  assumes "\<forall>y \<in> set ys. (SortCompare c x y \<le> 0) = (k y \<le> k x)"
  shows "filter (\<lambda>p. (k p :: int) = d) (sort_insert c x ys) = filter (\<lambda>p. k p = d) (x # ys)"
  using assms by (induction ys) auto

lemma Array_sort_sorted:
  assumes "\<forall>x \<in> set xs. \<forall>y \<in> set xs. (SortCompare c x y \<le> 0) = (k y \<le> k x)"
  shows "sorted_wrt (\<lambda>a b. (k b :: int) \<le> k a) (Array_sort c xs)"
  using assms
  by (induction xs)
     (simp_all add: Array_sort_Nil Array_sort_Cons sort_insert_sorted set_Array_sort)

lemma Array_sort_stable:
  assumes "\<forall>x \<in> set xs. \<forall>y \<in> set xs. (SortCompare c x y \<le> 0) = (k y \<le> k x)"
  shows "filter (\<lambda>p. (k p :: int) = d) (Array_sort c xs) = filter (\<lambda>p. k p = d) xs"
  using assms
  by (induction xs)
     (simp_all add: Array_sort_Nil Array_sort_Cons sort_insert_filter set_Array_sort)

lemma Array_sort_NaN: "Array_sort (\<lambda>a b. NaN) xs = xs"
proof (induction xs)
  case Nil
  show ?case by (simp add: Array_sort_Nil)
next
  case (Cons x xs)
  then show ?case by (cases xs) (simp_all add: Array_sort_Cons SortCompare_def)
qed

lemma compare_by_date:
  assumes "Date_value H (fechaActualizacion a) = Some ta"
    and "Date_value H (fechaActualizacion b) = Some tb"
  shows "SortCompare (compareProjects H ''fechaActualizacion'') a b = tb - ta"
  using assms by (simp add: SortCompare_def compareProjects_def date_minus_def)

lemma length_sortedProjects_all:
  assumes "currentFilter s = ''todos''" and "searchInput s = []" and "toLowerCase H [] = []"
  shows "length (sortedProjects H s) = length (heap s ! projects s)"
  using assms
  by (simp add: sortedProjects_eq length_Array_sort String_includes_sublist)

lemma sample_host_lower_empty: "toLowerCase sample_host [] = []"
  by (simp add: sample_host_def ascii_lower_def capital_odos_def capital_sigma_def)

subsection \<open>Pages\<close>

lemma concat_pages:
  "concat (map (\<lambda>i. take k (drop (i * k) xs)) [0..<m]) = take (m * k) xs"
proof (induction m)
  case 0
  show ?case by simp
next
  case (Suc m)
  have "take (Suc m * k) xs = take (m * k) xs @ take k (drop (m * k) xs)"
    using take_add [of "m * k" k xs] by (simp add: add.commute)
  with Suc show ?case by simp
qed

lemma js_slice_page:
  assumes "0 \<le> a" and "0 \<le> n"
  shows "js_slice xs a (a + n) = take (nat n) (drop (nat a) xs)"
proof -
  consider "a + n \<le> int (length xs)"
    | "a \<le> int (length xs)" "int (length xs) < a + n"
    | "int (length xs) < a"
    by linarith
  then show ?thesis
  proof cases
    case 1
    with assms have "nat (a + n - a) = nat n" "min a (int (length xs)) = a"
      "min (a + n) (int (length xs)) = a + n"
      by simp_all
    with assms show ?thesis
      by (simp add: js_slice_def Let_def)
  next
    case 2
    with assms have "min a (int (length xs)) = a"
      "min (a + n) (int (length xs)) = int (length xs)"
      by simp_all
    moreover have "nat (int (length xs) - a) = length xs - nat a"
      using assms by linarith
    moreover have "length xs - nat a \<le> nat n"
      using 2 assms by linarith
    ultimately show ?thesis
      using assms by (simp add: js_slice_def Let_def)
  next
    case 3
    with assms have "min a (int (length xs)) = int (length xs)"
      "min (a + n) (int (length xs)) = int (length xs)" "length xs \<le> nat a"
      by simp_all
    with assms show ?thesis
      by (simp add: js_slice_def Let_def)
  qed
qed

lemma totalPages_div: "totalPages n = (n + 9) div 10"
proof -
  have "totalPages n = - (- n div 10)"
    unfolding totalPages_def projectsPerPage_def
    using ceiling_divide_eq_div [of n 10] by simp
  then show ?thesis by linarith
qed

lemma upto_as_upt: "[1..int m] = map (\<lambda>i. int i + 1) [0..<m]"
proof (induction m)
  case 0
  show ?case by simp
next
  case (Suc m)
  have "[1..int (Suc m)] = [1..int m] @ [int m + 1]"
    using upto_rec2 [of 1 "int (Suc m)"] by (simp add: add.commute)
  with Suc show ?case by simp
qed

lemma page_of_loadProjects:
  "projectsGrid (loadProjects H (s\<lparr>currentPage := int i + 1\<rparr>)) =
     take 10 (drop (i * 10) (sortedProjects H s))"
proof -
  have "sortedProjects H (s\<lparr>currentPage := int i + 1\<rparr>) = sortedProjects H s"
    by (simp add: sortedProjects_eq)
  moreover have "js_slice xs (int i * 10) (int i * 10 + 10) = take 10 (drop (i * 10) xs)" for xs :: "Project list"
    using js_slice_page [of "int i * 10" 10 xs] by (simp add: nat_mult_distrib)
  ultimately show ?thesis
    by (simp add: projectsGrid_loadProjects projectsPerPage_def)
qed

subsection \<open>Page numbers as text\<close>

lemma digit_chars:
  "\<forall>d \<in> set [0..<10]. digit_value (char_of (48 + d)) = Some d \<and>
      char_of (48 + d) \<notin> set (map hd WhiteSpace) \<and>
      char_of (48 + d) \<notin> set [CHR ''-'', CHR ''+'', CHR ''x'', CHR ''X'']"
  by code_simp

lemma digit_char:
  assumes "d < 10"
  shows "digit_value (char_of (48 + d)) = Some d"
    and "char_of (48 + d) \<notin> set (map hd WhiteSpace)"
    and "char_of (48 + d) \<noteq> CHR ''-''" and "char_of (48 + d) \<noteq> CHR ''+''"
    and "char_of (48 + d) \<noteq> CHR ''x''" and "char_of (48 + d) \<noteq> CHR ''X''"
  using assms digit_chars by auto

lemma StripLeadingWhiteSpace_none:
  assumes "s \<noteq> []" and "hd s \<notin> set (map hd WhiteSpace)"
  shows "StripLeadingWhiteSpace s = s"
proof -
  have "\<not> prefix w s" if "w \<in> set WhiteSpace" for w
  proof
    assume pre: "prefix w s"
    have "w \<noteq> []"
      using that by (auto simp: WhiteSpace_def)
    with pre assms(1) have "hd w = hd s"
      by (cases w; cases s) auto
    moreover have "hd w \<in> set (map hd WhiteSpace)"
      using that by simp
    ultimately show False
      using assms(2) by simp
  qed
  then have "find (\<lambda>w. prefix w s) WhiteSpace = None"
    by (simp add: find_None_iff)
  then show ?thesis
    by (subst StripLeadingWhiteSpace.simps) simp
qed

lemma digits_of_chars: "c \<in> set (digits_of n) \<Longrightarrow> \<exists>d::nat. d < 10 \<and> c = char_of (48 + d)"
proof (induction n rule: digits_of.induct)
  case (1 n)
  show ?case
  proof (cases "n < 10")
    case True
    with "1.prems" show ?thesis by (auto simp: digits_of.simps [of n])
  next
    case False
    with "1.prems" have "c \<in> set (digits_of (n div 10)) \<or> c = char_of (48 + n mod 10)"
      by (auto simp: digits_of.simps [of n])
    then show ?thesis
    proof
      assume "c \<in> set (digits_of (n div 10))"
      with False "1.IH" show ?thesis by simp
    next
      assume "c = char_of (48 + n mod 10)"
      moreover have "n mod 10 < 10" by simp
      ultimately show ?thesis by blast
    qed
  qed
qed

lemma digits_of_nonempty: "digits_of n \<noteq> []"
  by (subst digits_of.simps) simp

lemma digits_value_snoc:
  "digits_value radix (ds @ [c]) = digits_value radix ds * radix + the (digit_value c)"
  by (simp add: digits_value_def)

lemma digits_value_digits_of: "digits_value 10 (digits_of n) = n"
proof (induction n rule: digits_of.induct)
  case (1 n)
  show ?case
  proof (cases "n < 10")
    case True
    then show ?thesis
      by (simp add: digits_of.simps [of n] digits_value_def digit_char)
  next
    case False
    have "n mod 10 < 10" by simp
    then have "the (digit_value (char_of (48 + n mod 10))) = n mod 10"
      by (simp add: digit_char)
    with False "1.IH" show ?thesis
      by (simp add: digits_of.simps [of n] digits_value_snoc)
  qed
qed

lemma parseInt_decimal:
  assumes ne: "ds \<noteq> []"
    and dig: "\<And>c. c \<in> set ds \<Longrightarrow> \<exists>d::nat. d < 10 \<and> c = char_of (48 + d)"
    and safe: "int (digits_value 10 ds) \<le> MAX_SAFE_INTEGER"
  shows "parseInt ds = Some (Num (int (digits_value 10 ds)))"
    and "parseInt (CHR ''-'' # ds) = Some (Num (- int (digits_value 10 ds)))"
proof -
  have "is_digit 10 c" if "c \<in> set ds" for c
  proof -
    from dig [OF that] obtain d :: nat where "d < 10" "c = char_of (48 + d)" by blast
    then show ?thesis by (simp add: is_digit_def digit_char)
  qed
  then have all: "takeWhile (is_digit 10) ds = ds"
    by (simp add: takeWhile_eq_all_conv)
  have "hd ds \<in> set ds" using ne by simp
  then obtain d :: nat where d: "d < 10" "hd ds = char_of (48 + d)" using dig by blast
  have nosp: "StripLeadingWhiteSpace ds = ds"
    using ne d digit_char(2) [of d] by (simp add: StripLeadingWhiteSpace_none)
  have nosign: "hd ds \<noteq> CHR ''-''" "hd ds \<noteq> CHR ''+''"
    using d by (simp_all add: digit_char)
  have "c \<noteq> CHR ''x'' \<and> c \<noteq> CHR ''X''" if "c \<in> set ds" for c
  proof -
    from dig [OF that] obtain d :: nat where "d < 10" "c = char_of (48 + d)" by blast
    then show ?thesis by (simp add: digit_char)
  qed
  then have "CHR ''x'' \<notin> set ds" "CHR ''X'' \<notin> set ds"
    by blast+
  then have nohex: "\<not> prefix ''0x'' ds" "\<not> prefix ''0X'' ds"
    by (auto simp: prefix_def)
  show "parseInt ds = Some (Num (int (digits_value 10 ds)))"
    unfolding parseInt_def Let_def nosp
    using ne nosign nohex safe by (simp add: all)
  have "CHR ''-'' \<notin> set (map hd WhiteSpace)" by code_simp
  then have "StripLeadingWhiteSpace (CHR ''-'' # ds) = CHR ''-'' # ds"
    by (simp add: StripLeadingWhiteSpace_none)
  then show "parseInt (CHR ''-'' # ds) = Some (Num (- int (digits_value 10 ds)))"
    unfolding parseInt_def Let_def
    using nohex safe by (simp add: all ne)
qed

lemma parseInt_digits:
  assumes "int n \<le> MAX_SAFE_INTEGER"
  shows "parseInt (digits_of n) = Some (Num (int n))"
    and "parseInt (CHR ''-'' # digits_of n) = Some (Num (- int n))"
  using parseInt_decimal [of "digits_of n"] digits_of_nonempty [of n] digits_of_chars [of _ n]
    assms
  by (simp_all add: digits_value_digits_of)

lemma parseInt_string_of_int:
  assumes "\<bar>n\<bar> \<le> MAX_SAFE_INTEGER"
  shows "parseInt (string_of_int n) = Some (Num n)"
proof (cases "n < 0")
  case True
  with assms have "int (nat (- n)) \<le> MAX_SAFE_INTEGER"
    by simp
  from parseInt_digits(2) [OF this] True show ?thesis
    by (simp add: string_of_int_def)
next
  case False
  with assms have "int (nat n) \<le> MAX_SAFE_INTEGER"
    by simp
  from parseInt_digits(1) [OF this] False show ?thesis
    by (simp add: string_of_int_def)
qed

subsection \<open>Status look-ups\<close>

text \<open>
  The three known tokens give their fixed class and label, and a status that is neither
  a known token nor the name of an inherited property gives \<open>undefined\<close>.
\<close>

lemma getStatus_known:
  "estado p = ''en-progreso'' \<Longrightarrow>
     getStatusClass p = Str ''status-progress'' \<and> getStatusText p = Str ''En Progreso''"
  "estado p = ''completados'' \<Longrightarrow>
     getStatusClass p = Str ''status-completed'' \<and> getStatusText p = Str ''Completado''"
  "estado p = ''pausados'' \<Longrightarrow>
     getStatusClass p = Str ''status-paused'' \<and> getStatusText p = Str ''Pausado''"
  by (simp_all add: getStatusClass_def getStatusText_def statusClasses_def statusTexts_def
      object_get_def)

lemma getStatus_unknown:
  assumes "estado p \<notin> set [''en-progreso'', ''completados'', ''pausados'']"
    and "estado p \<notin> set Object_prototype_keys"
  shows "getStatusClass p = Undefined \<and> getStatusText p = Undefined"
  using assms
  by (simp add: getStatusClass_def getStatusText_def statusClasses_def statusTexts_def
      object_get_def)

section \<open>The claims\<close>

text \<open>
  Claim C1, as the code has it. The click listener of a pagination button guards only
  against a page that is not a number. For every integer \<open>n\<close> that a number holds
  exactly, in the range \<open>1..totalPages\<close> or not, a click on a button whose
  \<open>data-page\<close> is \<open>n\<close> sets the current page to \<open>n\<close> and recomputes; the click
  changes nothing when \<open>parseInt\<close> of the page is \<open>NaN\<close>.
\<close>

theorem pagination_click_sets_any_page:
  "(\<bar>n\<bar> \<le> MAX_SAFE_INTEGER \<longrightarrow>
      pagination_click H (string_of_int n) s = Some (loadProjects H (s\<lparr>currentPage := n\<rparr>)) \<and>
      currentPage (loadProjects H (s\<lparr>currentPage := n\<rparr>)) = n) \<and>
   (parseInt page = Some NaN \<longrightarrow> pagination_click H page s = Some s)"
  by (simp add: pagination_click_def parseInt_string_of_int loadProjects_frame)

theorem pagination_click_sets_any_page_witness:
  "\<bar>5\<bar> \<le> MAX_SAFE_INTEGER \<and>
   pagination_click sample_host (string_of_int 5) sample_state =
     Some (loadProjects sample_host (sample_state\<lparr>currentPage := 5\<rparr>)) \<and>
   currentPage (loadProjects sample_host (sample_state\<lparr>currentPage := 5\<rparr>)) = 5 \<and>
   parseInt ''abc'' = Some NaN \<and>
   pagination_click sample_host ''abc'' sample_state = Some sample_state"
proof -
  have safe: "\<bar>5\<bar> \<le> MAX_SAFE_INTEGER"
    by (simp add: MAX_SAFE_INTEGER_def)
  have nan: "parseInt ''abc'' = Some NaN"
    by code_simp
  from safe nan show ?thesis
    using pagination_click_sets_any_page [of 5 sample_host sample_state "''abc''"] by blast
qed

text \<open>
  The page offers a button that is out of range: when a search matches nothing there
  are 0 pages, the current page is 1, and the button \<open>Siguiente\<close> is rendered enabled
  with \<open>data-page="2"\<close>.
\<close>

lemma no_match_sortedProjects:
  "sortedProjects sample_host (sample_state\<lparr>searchInput := ''zzz''\<rparr>) = []"
  "sortedProjects sample_host no_match_state = []"
proof -
  define s where "s = sample_state\<lparr>searchInput := ''zzz''\<rparr>"
  have "\<not> String_includes (toLowerCase sample_host ''E-commerce Platform'')
           (toLowerCase sample_host ''zzz'')"
    "\<not> String_includes (toLowerCase sample_host ''Blog Personal'')
           (toLowerCase sample_host ''zzz'')"
    "\<not> String_includes (toLowerCase sample_host gestion) (toLowerCase sample_host ''zzz'')"
    by code_simp+
  then show none: "sortedProjects sample_host (sample_state\<lparr>searchInput := ''zzz''\<rparr>) = []"
    by (simp add: sortedProjects_eq sample_state_def sample_projects_def Array_sort_Nil)
  have "projects s < length (heap s)"
    by (simp add: s_def sample_state_def)
  then have "heap (loadProjects sample_host s) ! projects s = heap s ! projects s"
    by (rule heap_loadProjects)
  then have "sortedProjects sample_host (loadProjects sample_host s) = sortedProjects sample_host s"
    by (simp add: sortedProjects_eq loadProjects_frame)
  with none show "sortedProjects sample_host no_match_state = []"
    by (simp add: no_match_state_def searchInput_input_def s_def)
qed

lemma next_button_on_empty_result:
  "currentPage no_match_state = 1"
  "last (pagination no_match_state) =
     \<lparr>disabled = False, active = False, data_page = ''2'', caption = ''Siguiente''\<rparr>"
proof -
  have two: "string_of_int 2 = ''2''"
    by code_simp
  have page: "currentPage (sample_state\<lparr>searchInput := ''zzz''\<rparr>) = 1"
    by (simp add: sample_state_def)
  then show "currentPage no_match_state = 1"
    by (simp add: no_match_state_def searchInput_input_def loadProjects_frame)
  have "pagination no_match_state =
      pagination (setupPagination 0 (sample_state\<lparr>searchInput := ''zzz''\<rparr>))"
    by (simp add: no_match_state_def searchInput_input_def pagination_loadProjects
        no_match_sortedProjects)
  then show "last (pagination no_match_state) =
     \<lparr>disabled = False, active = False, data_page = ''2'', caption = ''Siguiente''\<rparr>"
    by (simp add: setupPagination_def totalPages_div page two)
qed

text \<open>
  Claim C1 as stated fails there: page 2 is outside \<open>1..totalPages\<close>, which is empty,
  and the click on \<open>Siguiente\<close> still moves the current page from 1 to 2.
\<close>

theorem pagination_click_out_of_range:
  "\<not> (\<not> (1 \<le> (2::int) \<and>
            2 \<le> totalPages (int (length (sortedProjects sample_host no_match_state)))) \<longrightarrow>
        map_option currentPage
          (click sample_host (last (pagination no_match_state)) no_match_state) =
        Some (currentPage no_match_state))"
proof -
  have pages: "totalPages (int (length (sortedProjects sample_host no_match_state))) = 0"
    by (simp add: no_match_sortedProjects totalPages_div)
  have "parseInt ''2'' = Some (Num 2)"
    by code_simp
  then have "click sample_host (last (pagination no_match_state)) no_match_state =
      Some (loadProjects sample_host (no_match_state\<lparr>currentPage := 2\<rparr>))"
    by (simp add: next_button_on_empty_result click_def pagination_click_def)
  then have moved: "map_option currentPage
      (click sample_host (last (pagination no_match_state)) no_match_state) = Some 2"
    by (simp add: loadProjects_frame)
  show ?thesis
    unfolding pages moved next_button_on_empty_result(1) by simp
qed

text \<open>
  Claim C2. With a filter other than \<open>'todos'\<close>, every record of the array that
  \<open>filterProjects\<close> returns has that filter as its \<open>estado\<close> (the array holds the
  records of the collection with that \<open>estado\<close>, in their order); with \<open>'todos'\<close>
  the result is the whole collection, of the same length.
\<close>

theorem filterProjects_status:
  "(currentFilter s \<noteq> ''todos'' \<longrightarrow>
      (\<forall>p \<in> set (heap (snd (filterProjects s)) ! fst (filterProjects s)).
         estado p = currentFilter s) \<and>
      heap (snd (filterProjects s)) ! fst (filterProjects s) =
        filter (\<lambda>p. estado p = currentFilter s) (heap s ! projects s)) \<and>
   (currentFilter s = ''todos'' \<longrightarrow>
      heap (snd (filterProjects s)) ! fst (filterProjects s) = heap s ! projects s \<and>
      length (heap (snd (filterProjects s)) ! fst (filterProjects s)) =
        length (heap s ! projects s))"
  by (simp add: filterProjects_result)

theorem filterProjects_status_witness:
  "currentFilter (sample_state\<lparr>currentFilter := ''pausados''\<rparr>) \<noteq> ''todos'' \<and>
   sample_projects ! 2 \<in> set (heap (snd (filterProjects (sample_state\<lparr>currentFilter := ''pausados''\<rparr>))) !
      fst (filterProjects (sample_state\<lparr>currentFilter := ''pausados''\<rparr>))) \<and>
   estado (sample_projects ! 2) = ''pausados'' \<and>
   currentFilter sample_state = ''todos'' \<and>
   heap (snd (filterProjects sample_state)) ! fst (filterProjects sample_state) = sample_projects"
proof -
  define s where "s = sample_state\<lparr>currentFilter := ''pausados''\<rparr>"
  have other: "currentFilter s \<noteq> ''todos''" and flt: "currentFilter s = ''pausados''"
    by (simp_all add: s_def)
  have all: "currentFilter sample_state = ''todos''"
    and arr: "heap sample_state ! projects sample_state = sample_projects"
    by (simp_all add: sample_state_def)
  have mem: "sample_projects ! 2 \<in> set (heap (snd (filterProjects s)) ! fst (filterProjects s))"
    by (simp add: filterProjects_result s_def sample_state_def sample_projects_def)
  from filterProjects_status [of s] other
  have "\<forall>p \<in> set (heap (snd (filterProjects s)) ! fst (filterProjects s)).
          estado p = currentFilter s"
    by blast
  with mem flt have third: "estado (sample_projects ! 2) = ''pausados''"
    by simp
  from filterProjects_status [of sample_state] all
  have "heap (snd (filterProjects sample_state)) ! fst (filterProjects sample_state) =
      heap sample_state ! projects sample_state"
    by blast
  with arr have whole: "heap (snd (filterProjects sample_state)) ! fst (filterProjects sample_state) =
      sample_projects"
    by simp
  from other mem third all whole show ?thesis
    unfolding s_def by blast
qed

text \<open>
  Every host that lower-cases the two Greek texts as ECMAScript does drops the project
  named by the word when the capital sigma is searched for.
\<close>

lemma final_sigma_any_host:
  assumes "toLowerCase H capital_odos = small_odos"
    and "toLowerCase H capital_sigma = small_sigma"
    and "searchInput s = capital_sigma" and "heap s ! r = greek_projects"
  shows "heap (snd (searchProjects H r s)) ! fst (searchProjects H r s) = []"
proof -
  have "\<not> String_includes small_odos small_sigma"
    by code_simp
  with assms show ?thesis
    by (simp add: searchProjects_result greek_projects_def)
qed

text \<open>
  Claim C3 does not hold where the lower case of a letter depends on its place: the
  project whose name is the Greek word in capitals contains the search text, the capital
  sigma, as it stands, and \<open>searchProjects\<close> drops it, because the name's lower case
  ends in the final sigma and the lower case of the search text is the other small
  sigma.
\<close>

theorem searchProjects_final_sigma:
  "heap greek_state ! 0 = greek_projects \<and>
   sublist (searchInput greek_state) (nombre (greek_projects ! 0)) \<and>
   heap (snd (searchProjects sample_host 0 greek_state)) !
     fst (searchProjects sample_host 0 greek_state) = []"
proof -
  have arr: "heap greek_state ! 0 = greek_projects"
    and needle: "searchInput greek_state = capital_sigma"
    by (simp_all add: greek_state_def sample_state_def)
  have name: "nombre (greek_projects ! 0) = capital_odos"
    by (simp add: greek_projects_def)
  have inside: "sublist capital_sigma capital_odos"
    by code_simp
  have "\<not> String_includes (toLowerCase sample_host capital_odos)
           (toLowerCase sample_host capital_sigma)"
    by code_simp
  then have "heap (snd (searchProjects sample_host 0 greek_state)) !
     fst (searchProjects sample_host 0 greek_state) = []"
    by (simp add: searchProjects_result arr needle greek_projects_def)
  with arr inside show ?thesis
    by (simp add: needle name)
qed

text \<open>
  Claim C4. The page count that \<open>setupPagination\<close> computes from the length of the
  sorted array is \<open>\<lceil>length / 10\<rceil>\<close>, the numbered buttons it renders are the pages
  \<open>1..totalPages\<close>, and the slices that \<open>loadProjects\<close> shows for the pages
  \<open>1..totalPages\<close>, put one after the other, are the sorted array: every record once,
  in order.
\<close>

theorem pages_cover_sortedProjects:
  "totalPages (int (length (sortedProjects H s))) =
     \<lceil>real (length (sortedProjects H s)) / 10\<rceil> \<and>
   map caption (pagination (loadProjects H s)) =
     ''Anterior'' # map string_of_int [1 .. totalPages (int (length (sortedProjects H s)))]
       @ [''Siguiente''] \<and>
   concat (map (\<lambda>p. projectsGrid (loadProjects H (s\<lparr>currentPage := p\<rparr>)))
             [1 .. totalPages (int (length (sortedProjects H s)))]) = sortedProjects H s"
proof -
  define xs where "xs = sortedProjects H s"
  define m where "m = nat (totalPages (int (length xs)))"
  have ceil: "totalPages (int (length xs)) = \<lceil>real (length xs) / 10\<rceil>"
    by (simp add: totalPages_def projectsPerPage_def)
  have tp: "totalPages (int (length xs)) = int m"
    by (simp add: m_def totalPages_div)
  have enough: "length xs \<le> m * 10"
    unfolding m_def totalPages_div by linarith
  have "map caption (pagination (loadProjects H s)) =
      ''Anterior'' # map (\<lambda>i. string_of_int (int i + 1)) [0..<m] @ [''Siguiente'']"
    by (simp add: pagination_loadProjects setupPagination_def o_def m_def xs_def)
  then have buttons: "map caption (pagination (loadProjects H s)) =
      ''Anterior'' # map string_of_int [1 .. int m] @ [''Siguiente'']"
    by (simp add: upto_as_upt o_def)
  have "concat (map (\<lambda>p. projectsGrid (loadProjects H (s\<lparr>currentPage := p\<rparr>))) [1 .. int m]) =
        concat (map (\<lambda>i. take 10 (drop (i * 10) xs)) [0..<m])"
    by (simp add: upto_as_upt o_def page_of_loadProjects xs_def)
  also have "\<dots> = take (m * 10) xs"
    by (rule concat_pages)
  also have "\<dots> = xs"
    using enough by simp
  finally have pages: "concat (map (\<lambda>p. projectsGrid (loadProjects H (s\<lparr>currentPage := p\<rparr>)))
      [1 .. int m]) = xs" .
  from ceil buttons pages show ?thesis
    unfolding xs_def [symmetric] tp by simp
qed

theorem pages_cover_sortedProjects_witness:
  "totalPages (int (length (sortedProjects sample_host twelve_state))) = 2 \<and>
   projectsGrid (loadProjects sample_host (twelve_state\<lparr>currentPage := 1\<rparr>)) @
   projectsGrid (loadProjects sample_host (twelve_state\<lparr>currentPage := 2\<rparr>)) =
     sortedProjects sample_host twelve_state \<and>
   length (sortedProjects sample_host twelve_state) = 12"
proof -
  have twelve: "length (sortedProjects sample_host twelve_state) = 12"
    by (simp add: length_sortedProjects_all twelve_state_def sample_state_def
        twelve_projects_def sample_host_lower_empty)
  then have two: "totalPages (int (length (sortedProjects sample_host twelve_state))) = 2"
    by (simp add: totalPages_div)
  have both: "[1 .. 2::int] = [1, 2]"
    by (simp add: upto_rec1)
  from pages_cover_sortedProjects [of sample_host twelve_state]
  have "concat (map (\<lambda>p. projectsGrid (loadProjects sample_host (twelve_state\<lparr>currentPage := p\<rparr>)))
          [1 .. totalPages (int (length (sortedProjects sample_host twelve_state)))])
        = sortedProjects sample_host twelve_state"
    by blast
  then have "concat (map (\<lambda>p. projectsGrid (loadProjects sample_host (twelve_state\<lparr>currentPage := p\<rparr>)))
          [1, 2]) = sortedProjects sample_host twelve_state"
    unfolding two both .
  with two twelve show ?thesis by simp
qed

text \<open>
  Claim C5 as stated fails on a date that is no date: of the two projects the second
  has the text \<open>sin fecha\<close>, the comparator gives \<open>NaN\<close>, the sort leaves both where
  they are, and for this adjacent pair \<open>a.fechaActualizacion >= b.fechaActualizacion\<close> is
  false.
\<close>

theorem sortProjects_invalid_date:
  "\<not> (Suc 0 < length (heap (snd (sortProjects sample_host 0 undated_state)) ! 0) \<longrightarrow>
        js_ge (Date_value sample_host (fechaActualizacion
                 (heap (snd (sortProjects sample_host 0 undated_state)) ! 0 ! 0)))
              (Date_value sample_host (fechaActualizacion
                 (heap (snd (sortProjects sample_host 0 undated_state)) ! 0 ! Suc 0))))"
proof -
  have "Date_value sample_host ''sin fecha'' = None"
    by (simp add: sample_host_def)
  then have "Array_sort (compareProjects sample_host ''fechaActualizacion'') undated_projects =
      undated_projects"
    by (simp add: undated_projects_def dated_def Array_sort_def compareProjects_def
        date_minus_def SortCompare_def)
  then have "heap (snd (sortProjects sample_host 0 undated_state)) ! 0 = undated_projects"
    by (simp add: sortProjects_def undated_state_def sample_state_def)
  then show ?thesis
    by (simp add: undated_projects_def dated_def js_ge_def sample_host_def)
qed

text \<open>
  Claim C5, as the code has it. With the sort key \<open>fechaActualizacion\<close>, on an array of
  records whose dates all are valid dates, \<open>sortProjects\<close> leaves in the array the same
  records, every adjacent pair \<open>(a, b)\<close> has
  \<open>a.fechaActualizacion >= b.fechaActualizacion\<close> as dates, and the records of one date
  keep their order.
\<close>

theorem sortProjects_lastUpdated:
  assumes key: "sortSelect s = ''fechaActualizacion''"
    and ref: "r < length (heap s)"
    and valid: "\<forall>p \<in> set (heap s ! r). Date_value H (fechaActualizacion p) \<noteq> None"
  shows "fst (sortProjects H r s) = r \<and>
    (\<forall>i. Suc i < length (heap (snd (sortProjects H r s)) ! r) \<longrightarrow>
       js_ge (Date_value H (fechaActualizacion (heap (snd (sortProjects H r s)) ! r ! i)))
             (Date_value H (fechaActualizacion (heap (snd (sortProjects H r s)) ! r ! Suc i)))) \<and>
    (\<forall>d. filter (\<lambda>p. Date_value H (fechaActualizacion p) = d) (heap (snd (sortProjects H r s)) ! r) =
         filter (\<lambda>p. Date_value H (fechaActualizacion p) = d) (heap s ! r)) \<and>
    mset (heap (snd (sortProjects H r s)) ! r) = mset (heap s ! r)"
proof -
  define xs where "xs = heap s ! r"
  define c where "c = compareProjects H ''fechaActualizacion''"
  define k where "k = (\<lambda>p::Project. the (Date_value H (fechaActualizacion p)))"
  define out where "out = Array_sort c xs"
  have out: "heap (snd (sortProjects H r s)) ! r = out"
    using ref by (simp add: sortProjects_def key out_def c_def xs_def)
  have some: "Date_value H (fechaActualizacion p) = Some (k p)" if "p \<in> set xs" for p
    using that valid by (auto simp: k_def xs_def)
  have cmp: "\<forall>x \<in> set xs. \<forall>y \<in> set xs. (SortCompare c x y \<le> 0) = (k y \<le> k x)"
    by (auto simp: c_def compare_by_date [OF some some])
  have mem: "set out = set xs"
    by (simp add: out_def set_Array_sort)
  have sorted: "sorted_wrt (\<lambda>a b. k b \<le> k a) out"
    unfolding out_def by (rule Array_sort_sorted [OF cmp])
  have adj: "js_ge (Date_value H (fechaActualizacion (out ! i)))
                   (Date_value H (fechaActualizacion (out ! Suc i)))"
    if "Suc i < length out" for i
  proof -
    have "k (out ! Suc i) \<le> k (out ! i)"
      using sorted that by (simp add: sorted_wrt_iff_nth_less)
    moreover have "out ! i \<in> set xs" "out ! Suc i \<in> set xs"
      using that mem nth_mem [of i out] nth_mem [of "Suc i" out] by auto
    ultimately show ?thesis
      by (simp add: some js_ge_def)
  qed
  have stable: "filter (\<lambda>p. Date_value H (fechaActualizacion p) = d) out =
                filter (\<lambda>p. Date_value H (fechaActualizacion p) = d) xs" for d
  proof (cases d)
    case None
    have "filter (\<lambda>p. Date_value H (fechaActualizacion p) = None) out = []"
      using some mem by (auto simp: filter_empty_conv)
    moreover have "filter (\<lambda>p. Date_value H (fechaActualizacion p) = None) xs = []"
      using some by (auto simp: filter_empty_conv)
    ultimately show ?thesis using None by simp
  next
    case (Some t)
    have "filter (\<lambda>p. Date_value H (fechaActualizacion p) = Some t) out = filter (\<lambda>p. k p = t) out"
      using some mem by (intro filter_cong) auto
    moreover have "filter (\<lambda>p. Date_value H (fechaActualizacion p) = Some t) xs = filter (\<lambda>p. k p = t) xs"
      using some by (intro filter_cong) auto
    moreover have "filter (\<lambda>p. k p = t) out = filter (\<lambda>p. k p = t) xs"
      unfolding out_def by (rule Array_sort_stable [OF cmp])
    ultimately show ?thesis using Some by simp
  qed
  have perm: "mset out = mset xs"
    by (simp add: out_def mset_Array_sort)
  have "fst (sortProjects H r s) = r"
    by (simp add: sortProjects_def)
  with adj stable perm show ?thesis
    unfolding out xs_def [symmetric] by blast
qed

theorem sortProjects_lastUpdated_witness:
  "sortSelect tied_state = ''fechaActualizacion'' \<and>
   0 < length (heap tied_state) \<and>
   heap tied_state ! 0 = [dated 1 ''2025-02-10'', dated 2 ''2025-02-20'',
                          dated 3 ''2025-02-10'', dated 4 ''2025-02-20''] \<and>
   Date_value sample_host ''2025-02-10'' = Some 1739145600000 \<and>
   Date_value sample_host ''2025-02-20'' = Some 1740009600000 \<and>
   heap (snd (sortProjects sample_host 0 tied_state)) ! 0 =
     [dated 2 ''2025-02-20'', dated 4 ''2025-02-20'',
      dated 1 ''2025-02-10'', dated 3 ''2025-02-10''] \<and>
   mset (heap (snd (sortProjects sample_host 0 tied_state)) ! 0) = mset tied_projects \<and>
   js_ge (Date_value sample_host (fechaActualizacion
            (heap (snd (sortProjects sample_host 0 tied_state)) ! 0 ! 1)))
         (Date_value sample_host (fechaActualizacion
            (heap (snd (sortProjects sample_host 0 tied_state)) ! 0 ! Suc 1))) \<and>
   filter (\<lambda>p. Date_value sample_host (fechaActualizacion p) = Some 1739145600000)
       (heap (snd (sortProjects sample_host 0 tied_state)) ! 0) =
     [dated 1 ''2025-02-10'', dated 3 ''2025-02-10'']"
proof -
  define out where "out = heap (snd (sortProjects sample_host 0 tied_state)) ! 0"
  have key: "sortSelect tied_state = ''fechaActualizacion''"
    and ref: "0 < length (heap tied_state)"
    and arr: "heap tied_state ! 0 = tied_projects"
    by (simp_all add: tied_state_def sample_state_def)
  have d10: "Date_value sample_host ''2025-02-10'' = Some 1739145600000"
    and d20: "Date_value sample_host ''2025-02-20'' = Some 1740009600000"
    by (simp_all add: sample_host_def)
  have valid: "\<forall>p \<in> set (heap tied_state ! 0).
      Date_value sample_host (fechaActualizacion p) \<noteq> None"
    by (simp add: arr tied_projects_def dated_def d10 d20)
  note sorted = sortProjects_lastUpdated [OF key ref valid, folded out_def]
  from sorted have perm: "mset out = mset tied_projects"
    by (simp add: arr)
  then have "length out = length tied_projects"
    by (metis size_mset)
  then have "Suc 1 < length out"
    by (simp add: tied_projects_def)
  with sorted have pair: "js_ge (Date_value sample_host (fechaActualizacion (out ! 1)))
         (Date_value sample_host (fechaActualizacion (out ! Suc 1)))"
    by blast
  from sorted
  have "filter (\<lambda>p. Date_value sample_host (fechaActualizacion p) = Some 1739145600000) out =
     filter (\<lambda>p. Date_value sample_host (fechaActualizacion p) = Some 1739145600000)
       (heap tied_state ! 0)"
    by blast
  then have ties: "filter (\<lambda>p. Date_value sample_host (fechaActualizacion p) =
      Some 1739145600000) out = [dated 1 ''2025-02-10'', dated 3 ''2025-02-10'']"
    by (simp add: arr tied_projects_def dated_def d10 d20)
  have "Array_sort (compareProjects sample_host ''fechaActualizacion'') tied_projects =
     [dated 2 ''2025-02-20'', dated 4 ''2025-02-20'',
      dated 1 ''2025-02-10'', dated 3 ''2025-02-10'']"
    by (simp add: tied_projects_def dated_def Array_sort_def compareProjects_def
        date_minus_def SortCompare_def d10 d20)
  then have moved: "out = [dated 2 ''2025-02-20'', dated 4 ''2025-02-20'',
      dated 1 ''2025-02-10'', dated 3 ''2025-02-10'']"
    by (simp add: out_def sortProjects_def tied_state_def sample_state_def)
  from key ref arr d10 d20 moved perm pair ties show ?thesis
    unfolding out_def tied_projects_def by blast
qed

text \<open>
  Claim C6. \<open>loadProjects\<close> (filter, search, sort, paginate) leaves \<open>this.projects\<close>
  the same array with the same records in the same order: \<open>searchProjects\<close> always
  makes a new array, so the sort never works on the collection itself.
\<close>

theorem loadProjects_keeps_collection:
  assumes "projects s < length (heap s)"
  shows "projects (loadProjects H s) = projects s \<and>
         heap (loadProjects H s) ! projects (loadProjects H s) = heap s ! projects s"
  using assms by (simp add: loadProjects_frame heap_loadProjects)

theorem loadProjects_keeps_collection_witness:
  "projects sample_state < length (heap sample_state) \<and>
   heap (loadProjects sample_host sample_state) ! projects (loadProjects sample_host sample_state) =
     sample_projects"
proof -
  have ref: "projects sample_state < length (heap sample_state)"
    by (simp add: sample_state_def)
  have "heap sample_state ! projects sample_state = sample_projects"
    by (simp add: sample_state_def)
  moreover from loadProjects_keeps_collection [OF ref, of sample_host]
  have "heap (loadProjects sample_host sample_state) ! projects (loadProjects sample_host sample_state) =
      heap sample_state ! projects sample_state"
    by blast
  ultimately show ?thesis
    using ref by simp
qed

text \<open>
  Claim C7. \<open>handleFilterChange(filter)\<close> sets \<open>currentFilter\<close> to the filter, stores
  it in \<open>localStorage\<close> under \<open>currentFilter\<close>, sets the current page to 1, leaves the
  search text, the sort key and the collection as they were, and shows the grid and the
  pagination of a recompute with the new filter on page 1.
\<close>

theorem handleFilterChange_effect:
  "currentFilter (handleFilterChange H flt s) = flt \<and>
   localStorage (handleFilterChange H flt s) = (localStorage s)(''currentFilter'' \<mapsto> flt) \<and>
   currentPage (handleFilterChange H flt s) = 1 \<and>
   searchInput (handleFilterChange H flt s) = searchInput s \<and>
   sortSelect (handleFilterChange H flt s) = sortSelect s \<and>
   projects (handleFilterChange H flt s) = projects s \<and>
   projectsGrid (handleFilterChange H flt s) =
     projectsGrid (loadProjects H (s\<lparr>currentFilter := flt, currentPage := 1\<rparr>)) \<and>
   pagination (handleFilterChange H flt s) =
     pagination (loadProjects H (s\<lparr>currentFilter := flt, currentPage := 1\<rparr>))"
  by (simp add: handleFilterChange_def setActiveFilter_def Let_def loadProjects_frame
      projectsGrid_loadProjects pagination_loadProjects sortedProjects_eq setupPagination_def)

theorem handleFilterChange_effect_witness:
  "currentFilter (handleFilterChange sample_host ''pausados'' (sample_state\<lparr>currentPage := 3\<rparr>)) = ''pausados'' \<and>
   localStorage (handleFilterChange sample_host ''pausados'' (sample_state\<lparr>currentPage := 3\<rparr>))
      ''currentFilter'' = Some ''pausados'' \<and>
   currentPage (handleFilterChange sample_host ''pausados'' (sample_state\<lparr>currentPage := 3\<rparr>)) = 1 \<and>
   sortSelect (handleFilterChange sample_host ''pausados'' (sample_state\<lparr>currentPage := 3\<rparr>)) = ''nombre''"
  using handleFilterChange_effect [of sample_host "''pausados''" "sample_state\<lparr>currentPage := 3\<rparr>"]
  by (simp add: sample_state_def)

text \<open>
  Claim C8. The \<open>input\<close> listener of the search box only recomputes: the current page
  is what it was, for every state and every text.
\<close>

theorem searchInput_input_keeps_page:
  "currentPage (searchInput_input H text s) = currentPage s"
  by (simp add: searchInput_input_def loadProjects_frame)

theorem searchInput_input_keeps_page_witness:
  "currentPage (searchInput_input sample_host ''zzz'' (sample_state\<lparr>currentPage := 2\<rparr>)) = 2"
  using searchInput_input_keeps_page [of sample_host "''zzz''" "sample_state\<lparr>currentPage := 2\<rparr>"]
  by simp

text \<open>
  Claim C9 does not hold for a status that names a property every object literal
  inherits: for \<open>estado = 'constructor'\<close> both look-ups find the inherited member
  instead of \<open>undefined\<close>.
\<close>

theorem getStatus_inherited_key:
  "getStatusClass (\<lparr>project_id = 4, nombre = ''Demo'', estado = ''constructor'',
      fechaActualizacion = ''2025-02-20'', tecnologias = [], descripcion = []\<rparr>) =
     ObjectPrototypeMember ''constructor'' \<and>
   getStatusText (\<lparr>project_id = 4, nombre = ''Demo'', estado = ''constructor'',
      fechaActualizacion = ''2025-02-20'', tecnologias = [], descripcion = []\<rparr>) =
     ObjectPrototypeMember ''constructor''"
  by (simp add: getStatusClass_def getStatusText_def statusClasses_def statusTexts_def
      object_get_def Object_prototype_keys_def)

text \<open>
  Claim C10. With a sort key other than \<open>fechaActualizacion\<close>, \<open>nombre\<close> and
  \<open>estado\<close> the comparator returns \<open>undefined\<close> for every pair, and \<open>sortProjects\<close>
  returns the array it was given with nothing changed.
\<close>

theorem sortProjects_unknown_key:
  assumes "sortSelect s \<noteq> ''fechaActualizacion''"
    and "sortSelect s \<noteq> ''nombre''" and "sortSelect s \<noteq> ''estado''"
  shows "sortProjects H r s = (r, s)"
proof -
  have "compareProjects H (sortSelect s) = (\<lambda>a b. NaN)"
    using assms by (simp add: compareProjects_def fun_eq_iff)
  then show ?thesis
    by (simp add: sortProjects_def Array_sort_NaN)
qed

theorem sortProjects_unknown_key_witness:
  "sortSelect (sample_state\<lparr>sortSelect := ''id''\<rparr>) \<notin> set [''fechaActualizacion'', ''nombre'', ''estado''] \<and>
   sortProjects sample_host 0 (sample_state\<lparr>sortSelect := ''id''\<rparr>) =
     (0, sample_state\<lparr>sortSelect := ''id''\<rparr>)"
  using sortProjects_unknown_key [of "sample_state\<lparr>sortSelect := ''id''\<rparr>" sample_host 0]
  by simp

end
